theory Spec2Isabelle
  imports Main "HOL-Library.Word"
begin

unbundle bit_operations_syntax

section \<open>fixlink: rewriting the targets of junctions and symbolic links\<close>

text \<open>
  A shallow embedding of \<^verbatim>\<open>fixlink/source/fixlink.cpp\<close>: the recursive visit
  \<^verbatim>\<open>fixlink(Path, CurDepth)\<close> and the driver \<^verbatim>\<open>_tmain\<close>.

  The program works on the file system through the Win32 API and the link library
  (\<^verbatim>\<open>Junction.h\<close>, \<^verbatim>\<open>Symlink.h\<close>), and on two globals, \<^verbatim>\<open>Options\<close> and
  \<^verbatim>\<open>Stats\<close>. In the model the file-system object a path names is a tree
  (\<open>fsnode\<close>) that the visit takes and returns updated, and the globals and the
  standard output are a record (\<open>world\<close>) threaded through every call.

  Modelling assumptions, each where the source leaves the model: strings are unbounded
  (every path, target and token fits the fixed buffer the source copies it into, so no
  \<^verbatim>\<open>StringCch\<close> call truncates); the counters and \<^verbatim>\<open>CurDepth\<close> do not overflow.
\<close>

subsection \<open>Platform constants\<close>

type_synonym DWORD = "32 word"

definition FILE_ATTRIBUTE_DIRECTORY :: DWORD where
  "FILE_ATTRIBUTE_DIRECTORY = 0x10"

definition FILE_ATTRIBUTE_REPARSE_POINT :: DWORD where
  "FILE_ATTRIBUTE_REPARSE_POINT = 0x400"

definition ERROR_FILE_NOT_FOUND :: DWORD where
  "ERROR_FILE_NOT_FOUND = 2"

definition ERROR_PATH_NOT_FOUND :: DWORD where
  "ERROR_PATH_NOT_FOUND = 3"

definition ERROR_ACCESS_DENIED :: DWORD where
  "ERROR_ACCESS_DENIED = 5"

definition MAX_PATH :: nat where
  "MAX_PATH = 260"

subsection \<open>Options, statistics, output\<close>

text \<open>
  \<^verbatim>\<open>DataTypes.h\<close> is not among the sources; the fields are the ones
  \<^verbatim>\<open>fixlink.cpp\<close> reads and writes.
\<close>

record fixlinkOptions =
  OldTargetBase :: string
  NewTargetBase :: string
  MaxDepth :: int
  bVerbose :: bool

record fixlinkStats =
  NumModified :: nat
  NumSkipped :: nat
  NumFailed :: nat

text \<open>
  One constructor per \<^verbatim>\<open>_tprintf\<close> format of the source, with the arguments
  it is given: \<open>FileNotFound p\<close> is \<^verbatim>\<open>"File not found: %s.\n"\<close>,
  \<open>JunctionModified p old new\<close> is
  \<^verbatim>\<open>"junction %s target modified. old=%s, new=%s\n"\<close>, \<open>ModifiedLine n\<close> is
  \<^verbatim>\<open>"Modified: %d\n"\<close>, and so on. \<open>UsageText\<close> and \<open>VersionText\<close> stand for
  all the lines of \<^verbatim>\<open>PrintUsage\<close> and \<^verbatim>\<open>PrintVersion\<close>.
\<close>

datatype line =
    FileNotFound string
  | PathNotFound string
  | AccessDenied string
  | JunctionModified string string string
  | SymlinkModified string string string
  | UnrecognizedReparsePoint string
  | MissingArguments
  | UsageText
  | VersionText
  | ModifiedLine nat
  | SkippedLine nat
  | FailedLine nat

datatype link_kind = Junction | Symlink

text \<open>
  The calls that read or change a link, compute a new target or open a directory
  listing, logged in the order the program makes them (a ghost trace: the source has no
  such log). \<open>Substitute t f r\<close> is the call of \<^verbatim>\<open>StrReplace\<close> on the target
  \<open>t\<close> with the old base \<open>f\<close> and the new base \<open>r\<close>.
\<close>

datatype call =
    GetTarget link_kind string
  | Substitute string string string
  | DeleteLink link_kind string
  | CreateLink link_kind string string
  | FindFirstFile string

record world =
  Stats :: fixlinkStats
  out :: "line list"
  calls :: "call list"

definition PrintErrorMessage :: "DWORD \<Rightarrow> string \<Rightarrow> line list" where
  "PrintErrorMessage ErrorCode Path =
     (if ErrorCode = ERROR_FILE_NOT_FOUND then [FileNotFound Path]
      else if ErrorCode = ERROR_PATH_NOT_FOUND then [PathNotFound Path]
      else if ErrorCode = ERROR_ACCESS_DENIED then [AccessDenied Path]
      else [])"

definition print :: "line list \<Rightarrow> world \<Rightarrow> world" where
  "print ls w = w\<lparr>out := out w @ ls\<rparr>"

definition called :: "call \<Rightarrow> world \<Rightarrow> world" where
  "called c w = w\<lparr>calls := calls w @ [c]\<rparr>"

definition skipped :: "world \<Rightarrow> world" where
  "skipped w = w\<lparr>Stats := (Stats w)\<lparr>NumSkipped := NumSkipped (Stats w) + 1\<rparr>\<rparr>"

definition failed :: "world \<Rightarrow> world" where
  "failed w = w\<lparr>Stats := (Stats w)\<lparr>NumFailed := NumFailed (Stats w) + 1\<rparr>\<rparr>"

subsection \<open>String helpers\<close>

text \<open>
  Modelled from the spec: \<^verbatim>\<open>StrFind\<close> is declared in \<^verbatim>\<open>StringUtils.h\<close>, which
  is not among the sources. \<open>StrFind s f\<close> is the index of the leftmost occurrence of
  \<open>f\<close> in \<open>s\<close>, or \<open>-1\<close> when there is none (the source tests its result with
  \<^verbatim>\<open>>= 0\<close> to recognise an option, section 6).
\<close>

fun StrFind :: "string \<Rightarrow> string \<Rightarrow> int" where
  "StrFind [] f = (if f = [] then 0 else -1)"
| "StrFind (c # cs) f =
     (if take (length f) (c # cs) = f then 0
      else (let r = StrFind cs f in if r < 0 then -1 else r + 1))"

text \<open>
  Modelled from the spec: \<^verbatim>\<open>StrReplace\<close> is declared in \<^verbatim>\<open>StringUtils.h\<close>,
  which is not among the sources. By section 4.2, step 3, every literal occurrence of
  the old base is replaced by the new base, non-overlapping, leftmost first, and whether
  case counts follows the platform's native comparison of paths. That comparison is the
  first argument here: two characters are the same when \<open>norm\<close> gives the same for
  both (the identity where case counts, a case folding where it does not). By section 3
  an empty old base matches everywhere. The last two arguments are the two \<^verbatim>\<open>-1\<close>
  of the calls at lines 92 and 116; the header that says what they stand for is absent,
  and the spec gives the call as the substitution over the whole target, which is the
  result here whatever they are.
\<close>

definition same_text :: "(char \<Rightarrow> char) \<Rightarrow> string \<Rightarrow> string \<Rightarrow> bool" where
  "same_text norm x y = (map norm x = map norm y)"

function StrReplace ::
  "(char \<Rightarrow> char) \<Rightarrow> string \<Rightarrow> string \<Rightarrow> string \<Rightarrow> int \<Rightarrow> int \<Rightarrow> string" where
  "StrReplace norm [] f r m n = (if f = [] then r else [])"
| "StrReplace norm (c # cs) f r m n =
     (if f = [] then r @ c # StrReplace norm cs f r m n
      else if same_text norm (take (length f) (c # cs)) f
        then r @ StrReplace norm (drop (length f) (c # cs)) f r m n
      else c # StrReplace norm cs f r m n)"
  by pat_completeness auto
termination
  by (relation "measure (\<lambda>(norm, s, f, r, m, n). length s)") auto

subsection \<open>The file system and the link library\<close>

text \<open>
  Modelled from the spec: the link library (\<^verbatim>\<open>IsJunction\<close>, \<^verbatim>\<open>IsSymlink\<close>,
  \<^verbatim>\<open>GetJunctionTarget\<close>, \<^verbatim>\<open>DeleteJunction\<close>, \<^verbatim>\<open>CreateJunction\<close> and the
  symlink counterparts) is not among the sources. Section 6 gives them as operations
  that return a target string or a success-or-failure code. Here a path's reparse data
  is a value of \<open>reparse\<close>; a read, delete or create fails with the non-zero code the
  matching \<open>Fault\<close> field holds and goes through when that field is 0.
  \<open>probeError\<close> is what \<^verbatim>\<open>GetLastError()\<close> returns once both kind tests have
  answered no. \<open>pathFold\<close> is the platform's native comparison of paths on the file
  system that holds the link, as \<open>StrReplace\<close> takes it.
\<close>

datatype reparse = NoLink | JunctionTo string | SymlinkTo string | OtherTag

record linkinfo =
  reparse :: reparse
  probeError :: DWORD
  readFault :: DWORD
  deleteFault :: DWORD
  createFault :: DWORD
  pathFold :: "char \<Rightarrow> char"

definition IsJunction :: "linkinfo \<Rightarrow> bool" where
  "IsJunction lk = (case reparse lk of JunctionTo t \<Rightarrow> True | _ \<Rightarrow> False)"

definition IsSymlink :: "linkinfo \<Rightarrow> bool" where
  "IsSymlink lk = (case reparse lk of SymlinkTo t \<Rightarrow> True | _ \<Rightarrow> False)"

definition stored_target :: "linkinfo \<Rightarrow> string" where
  "stored_target lk =
     (case reparse lk of JunctionTo t \<Rightarrow> t | SymlinkTo t \<Rightarrow> t | _ \<Rightarrow> [])"

definition link_to :: "link_kind \<Rightarrow> string \<Rightarrow> reparse" where
  "link_to k t = (case k of Junction \<Rightarrow> JunctionTo t | Symlink \<Rightarrow> SymlinkTo t)"

text \<open>
  Modelled from the spec: \<^verbatim>\<open>GetJunctionTarget\<close> and \<^verbatim>\<open>GetSymlinkTarget\<close>
  (absent) return a result code and, when it is 0, the target in the caller's buffer,
  which the caller has zeroed.
\<close>

definition GetLinkTarget :: "linkinfo \<Rightarrow> DWORD \<times> string" where
  "GetLinkTarget lk = (if readFault lk \<noteq> 0 then (readFault lk, []) else (0, stored_target lk))"

text \<open>
  Modelled from the spec: \<^verbatim>\<open>DeleteJunction\<close> and \<^verbatim>\<open>DeleteSymlink\<close> (absent)
  return a result code; when it is 0 the link is gone (section 4.2, steps 4 and 5).
\<close>

definition DeleteLinkAt :: "linkinfo \<Rightarrow> DWORD \<times> linkinfo" where
  "DeleteLinkAt lk =
     (if deleteFault lk \<noteq> 0 then (deleteFault lk, lk) else (0, lk\<lparr>reparse := NoLink\<rparr>))"

text \<open>
  Modelled from the spec: \<^verbatim>\<open>CreateJunction\<close> and \<^verbatim>\<open>CreateSymlink\<close> (absent)
  return a result code; when it is 0 a link of that kind to the given target is there.
\<close>

definition CreateLinkAt :: "link_kind \<Rightarrow> string \<Rightarrow> linkinfo \<Rightarrow> DWORD \<times> linkinfo" where
  "CreateLinkAt k NewTarget lk =
     (if createFault lk \<noteq> 0 then (createFault lk, lk)
      else (0, lk\<lparr>reparse := link_to k NewTarget\<rparr>))"

text \<open>
  A file-system object as the program sees it at one path:
  \<^item> \<open>attrQuery\<close>: what \<^verbatim>\<open>GetFileAttributesEx\<close> answers, \<open>Inr\<close> the
    \<^verbatim>\<open>dwFileAttributes\<close> or \<open>Inl\<close> the \<^verbatim>\<open>GetLastError()\<close> code of the failure;
  \<^item> \<open>link\<close>: what the link library answers at the path;
  \<^item> \<open>listing\<close>: what enumerating the entries of \<^verbatim>\<open>Path\<close> gives, \<open>Inl\<close> the
    \<^verbatim>\<open>GetLastError()\<close> code when \<^verbatim>\<open>FindFirstFile\<close> fails, or \<open>Inr\<close> the entries
    in the order \<^verbatim>\<open>FindFirstFile\<close> and \<^verbatim>\<open>FindNextFile\<close> yield them, each with its
    \<^verbatim>\<open>cFileName\<close>, the \<^verbatim>\<open>dwFileAttributes\<close> of the find data, and the object.
  The three fields are independent, so an object can carry both attribute bits, and the
  attributes in the find data need not agree with a later query of the same object.
  A \<^verbatim>\<open>FindFirstFile\<close> that succeeds yields an entry, so a listing \<open>Inr []\<close>
  does not arise on the platform; on it the loop of the model takes no step.
\<close>

datatype fsnode =
  Node (attrQuery: "DWORD + DWORD") (link: linkinfo)
       (listing: "DWORD + (string \<times> DWORD \<times> fsnode) list")

type_synonym entry = "string \<times> DWORD \<times> fsnode"

subsection \<open>The visit\<close>

text \<open>Lines 69 to 73: the depth guard.\<close>

definition depth_guard :: "fixlinkOptions \<Rightarrow> int \<Rightarrow> bool" where
  "depth_guard opts CurDepth = (MaxDepth opts \<ge> 0 \<and> CurDepth > MaxDepth opts)"

text \<open>Lines 203 to 208: a non-zero result is counted and reported.\<close>

definition finish :: "string \<Rightarrow> DWORD \<Rightarrow> world \<Rightarrow> world" where
  "finish Path result w =
     (if result \<noteq> 0 then print (PrintErrorMessage result Path) (failed w) else w)"

text \<open>
  Lines 85 to 105 and 109 to 129: the junction branch and the symlink branch are the
  same text up to the kind of link, which is the parameter \<open>k\<close> here.
\<close>

definition modified_line :: "link_kind \<Rightarrow> string \<Rightarrow> string \<Rightarrow> string \<Rightarrow> line" where
  "modified_line k Path Target NewTarget =
     (case k of Junction \<Rightarrow> JunctionModified Path Target NewTarget
              | Symlink \<Rightarrow> SymlinkModified Path Target NewTarget)"

definition rewrite_link ::
  "link_kind \<Rightarrow> fixlinkOptions \<Rightarrow> string \<Rightarrow> linkinfo \<Rightarrow> world \<Rightarrow> DWORD \<times> linkinfo \<times> world" where
  "rewrite_link k opts Path lk w =
     (case GetLinkTarget lk of
        (result, Target) \<Rightarrow>
          let w1 = called (GetTarget k Path) w in
          if result = 0 then
            let NewTarget = StrReplace (pathFold lk) Target (OldTargetBase opts)
                              (NewTargetBase opts) (-1) (-1);
                w1' = called (Substitute Target (OldTargetBase opts) (NewTargetBase opts)) w1
            in
            (case DeleteLinkAt lk of
               (result, lk1) \<Rightarrow>
                 let w2 = called (DeleteLink k Path) w1' in
                 if result = 0 then
                   (case CreateLinkAt k NewTarget lk1 of
                      (result, lk2) \<Rightarrow>
                        let w3 = called (CreateLink k Path NewTarget) w2 in
                        (result, lk2,
                         if result = 0 \<and> bVerbose opts
                         then print [modified_line k Path Target NewTarget] w3
                         else w3))
                 else (result, lk1, w2))
          else (result, lk, w1))"

text \<open>Lines 82 to 139: the body for a reparse point.\<close>

definition relink ::
  "fixlinkOptions \<Rightarrow> string \<Rightarrow> linkinfo \<Rightarrow> world \<Rightarrow> DWORD \<times> linkinfo \<times> world" where
  "relink opts Path lk w =
     (if IsJunction lk then rewrite_link Junction opts Path lk w
      else if IsSymlink lk then rewrite_link Symlink opts Path lk w
      else
        let result = probeError lk in
        if result = 0 then (result, lk, skipped (print [UnrecognizedReparsePoint Path] w))
        else (result, lk, w))"

text \<open>
  Lines 157 to 164: the entries the loop passes over by name. \<^verbatim>\<open>StringCchLength\<close>
  with \<^verbatim>\<open>cchMax = MAX_PATH\<close> fails when no terminator stands within the first
  \<^verbatim>\<open>MAX_PATH\<close> characters.
\<close>

definition ignored_name :: "string \<Rightarrow> bool" where
  "ignored_name fileName =
     (length fileName \<ge> MAX_PATH \<or> length fileName = 0 \<or>
      (length fileName = 1 \<and> fileName ! 0 = CHR ''.'') \<or>
      (length fileName = 2 \<and> fileName ! 0 = CHR ''.'' \<and> fileName ! 1 = CHR ''.''))"

text \<open>Lines 170 to 173: \<^verbatim>\<open>Path\<close>, a backslash, the file name.\<close>

definition filePath :: "string \<Rightarrow> string \<Rightarrow> string" where
  "filePath Path fileName = Path @ CHR 0x5C # fileName"

text \<open>
  \<open>fixlink\<close> is the function of lines 65 to 211, \<open>fixlink_entries\<close> its
  \<^verbatim>\<open>do ... while (FindNextFile(...))\<close> loop (lines 155 to 177) over the entries
  still to come, with the current value of \<^verbatim>\<open>result\<close>.
\<close>

fun fixlink ::
    "fixlinkOptions \<Rightarrow> string \<Rightarrow> int \<Rightarrow> fsnode \<Rightarrow> world \<Rightarrow> DWORD \<times> fsnode \<times> world"
  and fixlink_entries ::
    "fixlinkOptions \<Rightarrow> string \<Rightarrow> int \<Rightarrow> DWORD \<Rightarrow> entry list \<Rightarrow> world
       \<Rightarrow> DWORD \<times> entry list \<times> world"
  where
  "fixlink opts Path CurDepth (Node aq lk ls) w =
     (if depth_guard opts CurDepth then (0, Node aq lk ls, w)
      else
        case aq of
          Inl err \<Rightarrow> (err, Node aq lk ls, finish Path err w)
        | Inr attrs \<Rightarrow>
            if attrs AND FILE_ATTRIBUTE_REPARSE_POINT \<noteq> 0 then
              (case relink opts Path lk w of
                 (result, lk', w') \<Rightarrow> (result, Node aq lk' ls, finish Path result w'))
            else if attrs AND FILE_ATTRIBUTE_DIRECTORY \<noteq> 0 then
              (case ls of
                 Inr es \<Rightarrow>
                   (case fixlink_entries opts Path CurDepth 0 es
                           (called (FindFirstFile Path) w) of
                      (result, es', w') \<Rightarrow>
                        (result, Node aq lk (Inr es'), finish Path result w'))
               | Inl err \<Rightarrow>
                   let w1 = called (FindFirstFile Path) w in
                   if err = ERROR_ACCESS_DENIED
                   then (0, Node aq lk ls, skipped (print (PrintErrorMessage err Path) w1))
                   else (err, Node aq lk ls, finish Path err w1))
            else (0, Node aq lk ls, w))"
| "fixlink_entries opts Path CurDepth result [] w = (result, [], w)"
| "fixlink_entries opts Path CurDepth result ((fileName, fa, child) # es) w =
     (if ignored_name fileName then
        (case fixlink_entries opts Path CurDepth result es w of
           (result', es', w') \<Rightarrow> (result', (fileName, fa, child) # es', w'))
      else if fa AND FILE_ATTRIBUTE_DIRECTORY \<noteq> 0 \<or> fa AND FILE_ATTRIBUTE_REPARSE_POINT \<noteq> 0 then
        (case fixlink opts (filePath Path fileName) (CurDepth + 1) child w of
           (result1, child', w1) \<Rightarrow>
             (case fixlink_entries opts Path CurDepth result1 es w1 of
                (result', es', w') \<Rightarrow> (result', (fileName, fa, child') # es', w')))
      else
        (case fixlink_entries opts Path CurDepth result es w of
           (result', es', w') \<Rightarrow> (result', (fileName, fa, child) # es', w')))"

subsection \<open>The driver\<close>

text \<open>
  \<^verbatim>\<open>_ttoi\<close> (the C library's \<^verbatim>\<open>atoi\<close>): white space, an optional sign, then
  decimal digits up to the first character that is not one.
\<close>

definition isspace :: "char \<Rightarrow> bool" where
  "isspace c = (c = CHR '' '' \<or> (9 \<le> (of_char c :: nat) \<and> (of_char c :: nat) \<le> 13))"

definition isdigit :: "char \<Rightarrow> bool" where
  "isdigit c = (48 \<le> (of_char c :: nat) \<and> (of_char c :: nat) \<le> 57)"

fun digits :: "int \<Rightarrow> string \<Rightarrow> int" where
  "digits acc [] = acc"
| "digits acc (c # cs) =
     (if isdigit c then digits (acc * 10 + (of_char c - 48)) cs else acc)"

definition ttoi :: "string \<Rightarrow> int" where
  "ttoi s =
     (case dropWhile isspace s of
        [] \<Rightarrow> 0
      | c # cs \<Rightarrow>
          if c = CHR ''-'' then - digits 0 cs
          else if c = CHR ''+'' then digits 0 cs
          else digits 0 (c # cs))"

text \<open>
  Lines 256 to 287: the loop over \<^verbatim>\<open>argv[1..argc-1]\<close>. Its arguments are the
  index \<open>i\<close>, the tokens from \<open>argv[i]\<close> on, \<^verbatim>\<open>Options\<close> and \<^verbatim>\<open>StartArgIdx\<close>.
  \<open>ExitNow\<close> is one of the two \<^verbatim>\<open>return 0\<close> of the loop, with what was printed;
  \<open>Parsed\<close> is the state in which the loop is left otherwise (by \<^verbatim>\<open>break\<close> or at
  its end). The test \<^verbatim>\<open>i + 1 < argc\<close> says that a token follows \<open>argv[i]\<close>.
  \<^verbatim>\<open>&argv[i][5]\<close> is the token without its first five characters (the source
  reads past the terminator when the token has fewer than five; here that is the
  empty string).
\<close>

definition asks_version :: "string \<Rightarrow> bool" where
  "asks_version a = (StrFind a ''/VER'' \<ge> 0 \<or> StrFind a ''/ver'' \<ge> 0)"

definition asks_usage :: "string \<Rightarrow> bool" where
  "asks_usage a = (StrFind a ''/?'' \<ge> 0)"

definition sets_level :: "string \<Rightarrow> bool" where
  "sets_level a = (StrFind a ''/LEV'' \<ge> 0 \<or> StrFind a ''/lev'' \<ge> 0)"

definition sets_verbose :: "string \<Rightarrow> bool" where
  "sets_verbose a = (StrFind a ''/V'' \<ge> 0 \<or> StrFind a ''/v'' \<ge> 0)"

datatype parsed = ExitNow "line list" | Parsed fixlinkOptions nat

fun parse_args :: "nat \<Rightarrow> string list \<Rightarrow> fixlinkOptions \<Rightarrow> nat \<Rightarrow> parsed" where
  "parse_args i [] opts StartArgIdx = Parsed opts StartArgIdx"
| "parse_args i (a # rest) opts StartArgIdx =
     (if asks_version a then ExitNow [VersionText]
      else if asks_usage a then ExitNow [UsageText]
      else if sets_level a
        then parse_args (i + 1) rest (opts\<lparr>MaxDepth := ttoi (drop 5 a)\<rparr>) StartArgIdx
      else if sets_verbose a
        then parse_args (i + 1) rest (opts\<lparr>bVerbose := True\<rparr>) StartArgIdx
      else
        (case rest of
           b # rest' \<Rightarrow> Parsed (opts\<lparr>OldTargetBase := a, NewTargetBase := b\<rparr>) (i + 2)
         | [] \<Rightarrow> parse_args (i + 1) rest opts StartArgIdx))"

text \<open>
  Lines 297 to 312: the second loop over \<^verbatim>\<open>argv[1..argc-1]\<close>. \<^verbatim>\<open>result\<close> is
  declared without a value (line 252), so it is \<open>None\<close> until a visit has returned.
  The file system is a function from the path a token names to the object there.
\<close>

definition is_option :: "string \<Rightarrow> bool" where
  "is_option a = (take 1 a = ''/'')"

fun visit_roots ::
  "fixlinkOptions \<Rightarrow> string list \<Rightarrow> DWORD option \<Rightarrow> (string \<Rightarrow> fsnode) \<Rightarrow> world
     \<Rightarrow> DWORD option \<times> (string \<Rightarrow> fsnode) \<times> world" where
  "visit_roots opts [] result fs w = (result, fs, w)"
| "visit_roots opts (a # rest) result fs w =
     (if is_option a then visit_roots opts rest result fs w
      else
        case fixlink opts a 0 (fs a) w of
          (r, n', w') \<Rightarrow>
            if r \<noteq> 0 then (Some r, fs(a := n'), w')
            else visit_roots opts rest (Some r) (fs(a := n')) w')"

text \<open>
  \<open>Indeterminate\<close>: the program returns a \<^verbatim>\<open>result\<close> that was never assigned
  (no token was visited).
\<close>

datatype exit_code = Exit DWORD | Indeterminate

definition world0 :: world where
  "world0 = \<lparr>Stats = \<lparr>NumModified = 0, NumSkipped = 0, NumFailed = 0\<rparr>, out = [], calls = []\<rparr>"

definition summary :: "fixlinkStats \<Rightarrow> line list" where
  "summary st = [ModifiedLine (NumModified st), SkippedLine (NumSkipped st), FailedLine (NumFailed st)]"

definition requiredArgs :: nat where
  "requiredArgs = 4"

text \<open>
  \<^verbatim>\<open>_tmain\<close>, lines 250 to 326. \<open>opts0\<close> is the value of the global \<^verbatim>\<open>Options\<close>
  when the program starts (its declaration is in \<^verbatim>\<open>DataTypes.h\<close>).
\<close>

definition tmain ::
  "fixlinkOptions \<Rightarrow> string list \<Rightarrow> (string \<Rightarrow> fsnode) \<Rightarrow> exit_code \<times> (string \<Rightarrow> fsnode) \<times> world" where
  "tmain opts0 argv fs =
     (case parse_args 1 (drop 1 argv) opts0 4 of
        ExitNow ls \<Rightarrow> (Exit 0, fs, print ls world0)
      | Parsed opts StartArgIdx \<Rightarrow>
          if length argv < requiredArgs
          then (Exit 1, fs, print [MissingArguments, UsageText] world0)
          else
            case visit_roots opts (drop 1 argv) None fs world0 of
              (result, fs', w) \<Rightarrow>
                let w' = print (summary (Stats w)) w in
                (case result of
                   None \<Rightarrow> (Indeterminate, fs', w')
                 | Some r \<Rightarrow>
                     (Exit (if r = 0 \<and> NumFailed (Stats w) > 0 then 1 else r), fs', w')))"

subsection \<open>Observations on a run\<close>

text \<open>
  The objects \<open>k\<close> levels of listing below an object, in listing order: \<open>level 0\<close>
  is the object itself, \<open>level 1\<close> its entries, and so on.
\<close>

fun level :: "nat \<Rightarrow> fsnode \<Rightarrow> fsnode list"
  and level_entries :: "nat \<Rightarrow> entry list \<Rightarrow> fsnode list" where
  "level 0 n = [n]"
| "level (Suc k) (Node aq lk ls) = (case ls of Inl err \<Rightarrow> [] | Inr es \<Rightarrow> level_entries k es)"
| "level_entries k [] = []"
| "level_entries k ((fileName, fa, child) # es) = level k child @ level_entries k es"

text \<open>The paths whose listing was opened, from the log of calls.\<close>

fun enumerated :: "call list \<Rightarrow> string list" where
  "enumerated [] = []"
| "enumerated (FindFirstFile p # cs) = p # enumerated cs"
| "enumerated (c # cs) = enumerated cs"

text \<open>The old and new base of every substitution, from the log of calls.\<close>

fun bases_used :: "call list \<Rightarrow> (string \<times> string) list" where
  "bases_used [] = []"
| "bases_used (Substitute t f r # cs) = (f, r) # bases_used cs"
| "bases_used (c # cs) = bases_used cs"


subsection \<open>Example objects\<close>


definition no_faults :: "reparse \<Rightarrow> linkinfo" where
  "no_faults r =
     \<lparr>reparse = r, probeError = 0, readFault = 0, deleteFault = 0, createFault = 0,
      pathFold = (\<lambda>c. c)\<rparr>"

text \<open>A regular file: \<^verbatim>\<open>FILE_ATTRIBUTE_NORMAL\<close>; listing it fails (\<^verbatim>\<open>ERROR_DIRECTORY\<close>).\<close>

definition regular_file :: fsnode where
  "regular_file = Node (Inr 0x80) (no_faults NoLink) (Inl 267)"

definition missing :: fsnode where
  "missing = Node (Inl ERROR_FILE_NOT_FOUND) (no_faults NoLink) (Inl ERROR_PATH_NOT_FOUND)"

definition locked :: fsnode where
  "locked = Node (Inl ERROR_ACCESS_DENIED) (no_faults NoLink) (Inl ERROR_ACCESS_DENIED)"

text \<open>A junction carries the directory bit and the reparse-point bit.\<close>

definition junction :: "string \<Rightarrow> fsnode" where
  "junction t = Node (Inr 0x410) (no_faults (JunctionTo t)) (Inl ERROR_ACCESS_DENIED)"

definition directory :: "entry list \<Rightarrow> fsnode" where
  "directory es =
     Node (Inr 0x10) (no_faults NoLink)
       (Inr ((''.'', 0x10, regular_file) # (''..'', 0x10, regular_file) # es))"

text \<open>A junction whose deletion fails with access denied.\<close>

definition broken_junction :: "string \<Rightarrow> fsnode" where
  "broken_junction t =
     Node (Inr 0x410) ((no_faults (JunctionTo t))\<lparr>deleteFault := 5\<rparr>) (Inl ERROR_ACCESS_DENIED)"


text \<open>A reparse point of another kind, whose kind tests leave the given last error.\<close>

definition other_reparse :: "DWORD \<Rightarrow> fsnode" where
  "other_reparse e =
     Node (Inr 0x400) ((no_faults OtherTag)\<lparr>probeError := e\<rparr>) (Inl ERROR_ACCESS_DENIED)"

definition opts_default :: fixlinkOptions where
  "opts_default = \<lparr>OldTargetBase = [], NewTargetBase = [], MaxDepth = -1, bVerbose = False\<rparr>"

text \<open>
  The scenario of section 8: the root \<^verbatim>\<open>C:/data\<close> holds a junction \<^verbatim>\<open>L\<close> to
  \<^verbatim>\<open>D:/old/base/sub\<close>. In \<open>fs_bases_exist\<close> the two base paths exist as directories,
  in \<open>fs_scenario\<close> they name nothing.
\<close>

definition data_tree :: "string \<Rightarrow> fsnode" where
  "data_tree t = directory [(''notes.txt'', 0x80, regular_file), (''L'', 0x410, junction t)]"

definition fs_scenario :: "string \<Rightarrow> fsnode" where
  "fs_scenario = (\<lambda>p. missing)(''C:/data'' := data_tree ''D:/old/base/sub'')"

text \<open>
  \<^verbatim>\<open>C:/tree\<close> holds a junction \<^verbatim>\<open>A\<close> that cannot be deleted, followed by a
  healthy junction \<^verbatim>\<open>L\<close>.
\<close>

definition failing_tree :: fsnode where
  "failing_tree =
     directory [(''A'', 0x410, broken_junction ''D:/old/a''),
                (''L'', 0x410, junction ''D:/old/base/sub'')]"

definition fs_bases_exist :: "string \<Rightarrow> fsnode" where
  "fs_bases_exist =
     fs_scenario(''D:/old/base'' := directory [], ''D:/new/base'' := directory [],
                 ''C:/locked'' := locked)"

definition fs_failing :: "string \<Rightarrow> fsnode" where
  "fs_failing = fs_bases_exist(''C:/tree'' := failing_tree)"

section \<open>Properties\<close>

subsection \<open>Basic facts about the world\<close>

lemmas run_defs =
  tmain_def asks_version_def asks_usage_def sets_level_def sets_verbose_def requiredArgs_def
  is_option_def fs_bases_exist_def fs_scenario_def directory_def regular_file_def junction_def
  data_tree_def missing_def locked_def no_faults_def ignored_name_def MAX_PATH_def
  FILE_ATTRIBUTE_DIRECTORY_def FILE_ATTRIBUTE_REPARSE_POINT_def ERROR_ACCESS_DENIED_def
  ERROR_FILE_NOT_FOUND_def ERROR_PATH_NOT_FOUND_def PrintErrorMessage_def
  depth_guard_def opts_default_def relink_def rewrite_link_def GetLinkTarget_def
  DeleteLinkAt_def CreateLinkAt_def IsJunction_def IsSymlink_def
  stored_target_def link_to_def called_def print_def failed_def skipped_def world0_def
  summary_def filePath_def Let_def finish_def same_text_def broken_junction_def
  failing_tree_def fs_failing_def

lemma finish_0 [simp]: "finish Path 0 w = w"
  by (simp add: finish_def)

lemma finish_nonzero: "result \<noteq> 0 \<Longrightarrow> finish Path result w = print (PrintErrorMessage result Path) (failed w)"
  by (simp add: finish_def)

lemma Stats_print [simp]: "Stats (print ls w) = Stats w"
  by (simp add: print_def)

lemma Stats_called [simp]: "Stats (called c w) = Stats w"
  by (simp add: called_def)

lemma calls_print [simp]: "calls (print ls w) = calls w"
  by (simp add: print_def)

lemma calls_called [simp]: "calls (called c w) = calls w @ [c]"
  by (simp add: called_def)

lemma calls_skipped [simp]: "calls (skipped w) = calls w"
  by (simp add: skipped_def)

lemma calls_failed [simp]: "calls (failed w) = calls w"
  by (simp add: failed_def)

lemma calls_finish [simp]: "calls (finish Path result w) = calls w"
  by (simp add: finish_def)

lemma NumModified_skipped [simp]: "NumModified (Stats (skipped w)) = NumModified (Stats w)"
  by (simp add: skipped_def)

lemma NumModified_failed [simp]: "NumModified (Stats (failed w)) = NumModified (Stats w)"
  by (simp add: failed_def)

lemma NumModified_finish [simp]: "NumModified (Stats (finish Path result w)) = NumModified (Stats w)"
  by (simp add: finish_def)

lemma NumFailed_failed [simp]: "NumFailed (Stats (failed w)) = Suc (NumFailed (Stats w))"
  by (simp add: failed_def)

lemma NumFailed_skipped [simp]: "NumFailed (Stats (skipped w)) = NumFailed (Stats w)"
  by (simp add: skipped_def)

lemma NumFailed_finish:
  "NumFailed (Stats (finish Path result w)) = (if result \<noteq> 0 then Suc (NumFailed (Stats w)) else NumFailed (Stats w))"
  by (simp add: finish_def)

lemma enumerated_append [simp]: "enumerated (xs @ ys) = enumerated xs @ enumerated ys"
  by (induction xs rule: enumerated.induct) simp_all

subsection \<open>The rewriter\<close>

lemma NumModified_rewrite_link [simp]:
  "NumModified (Stats (snd (snd (rewrite_link k opts Path lk w)))) = NumModified (Stats w)"
  by (simp add: rewrite_link_def GetLinkTarget_def DeleteLinkAt_def CreateLinkAt_def Let_def)

lemma NumModified_relink [simp]:
  "NumModified (Stats (snd (snd (relink opts Path lk w)))) = NumModified (Stats w)"
  by (simp add: relink_def Let_def)

lemma enumerated_rewrite_link [simp]:
  "enumerated (calls (snd (snd (rewrite_link k opts Path lk w)))) = enumerated (calls w)"
  by (simp add: rewrite_link_def GetLinkTarget_def DeleteLinkAt_def CreateLinkAt_def Let_def)

lemma enumerated_relink [simp]:
  "enumerated (calls (snd (snd (relink opts Path lk w)))) = enumerated (calls w)"
  by (simp add: relink_def Let_def)

lemma relink_NumModified:
  "relink opts Path lk w = (r, lk', w') \<Longrightarrow> NumModified (Stats w') = NumModified (Stats w)"
  using NumModified_relink[of opts Path lk w] by simp

lemma NumModified_fixlink:
  "NumModified (Stats (snd (snd (fixlink opts Path d n w)))) = NumModified (Stats w)"
  "NumModified (Stats (snd (snd (fixlink_entries opts Path d r es w)))) = NumModified (Stats w)"
proof (induction opts Path d n w and opts Path d r es w rule: fixlink_fixlink_entries.induct)
  case (1 opts Path CurDepth aq lk ls w)
  show ?case
  proof (cases "depth_guard opts CurDepth")
    case True
    then show ?thesis by simp
  next
    case False
    show ?thesis
    proof (cases aq)
      case (Inl err)
      then show ?thesis using False by simp
    next
      case attrs: (Inr attrs)
      show ?thesis
      proof (cases "attrs AND FILE_ATTRIBUTE_REPARSE_POINT \<noteq> 0")
        case True
        then show ?thesis using False attrs
          by (auto split: prod.splits dest: relink_NumModified)
      next
        case norep: False
        show ?thesis
        proof (cases "attrs AND FILE_ATTRIBUTE_DIRECTORY \<noteq> 0")
          case False
          then show ?thesis using attrs norep by simp
        next
          case dir: True
          show ?thesis
          proof (cases ls)
            case (Inl err)
            then show ?thesis using False attrs norep dir by (simp add: Let_def)
          next
            case es: (Inr es)
            have "NumModified (Stats (snd (snd (fixlink_entries opts Path CurDepth 0 es
                      (called (FindFirstFile Path) w))))) = NumModified (Stats w)"
              using "1.IH"[OF False attrs norep dir es] by simp
            then show ?thesis using False attrs norep dir es by (auto split: prod.splits)
          qed
        qed
      qed
    qed
  qed
next
  case (2 opts Path CurDepth result w)
  show ?case by simp
next
  case (3 opts Path CurDepth result fileName fa child es w)
  then show ?case
    by (cases "ignored_name fileName") (auto split: prod.splits)
qed

lemma NumModified_visit_roots:
  "NumModified (Stats (snd (snd (visit_roots opts ts result fs w)))) = NumModified (Stats w)"
proof (induction ts arbitrary: result fs w)
  case Nil
  show ?case by simp
next
  case (Cons a ts)
  show ?case
  proof (cases "is_option a")
    case True
    then show ?thesis using Cons.IH by simp
  next
    case False
    obtain r n' w' where v: "fixlink opts a 0 (fs a) w = (r, n', w')"
      by (cases "fixlink opts a 0 (fs a) w") auto
    have "NumModified (Stats w') = NumModified (Stats w)"
      using NumModified_fixlink(1)[of opts a 0 "fs a" w] v by simp
    then show ?thesis using False v Cons.IH by simp
  qed
qed

lemma fixlink_nonzero_counted:
  "fst (fixlink opts Path d n w) \<noteq> 0 \<Longrightarrow> 0 < NumFailed (Stats (snd (snd (fixlink opts Path d n w))))"
  by (cases n) (auto simp: Let_def NumFailed_finish split: if_splits sum.splits prod.splits)

lemma visit_roots_nonzero_counted:
  "visit_roots opts ts result fs w = (Some r, fs', w') \<Longrightarrow> r \<noteq> 0 \<Longrightarrow>
     result = Some r \<or> 0 < NumFailed (Stats w')"
proof (induction ts arbitrary: result fs w)
  case Nil
  then show ?case by simp
next
  case (Cons a ts)
  show ?case
  proof (cases "is_option a")
    case True
    then show ?thesis using Cons by simp
  next
    case False
    obtain r1 n1 w1 where v: "fixlink opts a 0 (fs a) w = (r1, n1, w1)"
      by (cases "fixlink opts a 0 (fs a) w") auto
    show ?thesis
    proof (cases "r1 = 0")
      case True
      have "visit_roots opts ts (Some r1) (fs(a := n1)) w1 = (Some r, fs', w')"
        using Cons.prems(1) False v True by simp
      then have "Some r1 = Some r \<or> 0 < NumFailed (Stats w')"
        using Cons.prems(2) by (rule Cons.IH)
      then show ?thesis using True Cons.prems(2) by simp
    next
      case nz: False
      then have "0 < NumFailed (Stats w1)" using fixlink_nonzero_counted[of opts a 0 "fs a" w] v by simp
      then show ?thesis using False v nz Cons.prems by auto
    qed
  qed
qed

subsection \<open>The depth guard\<close>

lemma fixlink_level_aux:
  "0 \<le> MaxDepth opts \<Longrightarrow> MaxDepth opts < d + int k \<Longrightarrow>
     level k (fst (snd (fixlink opts Path d n w))) = level k n"
  "0 \<le> MaxDepth opts \<Longrightarrow> MaxDepth opts < d + 1 + int k \<Longrightarrow>
     level_entries k (fst (snd (fixlink_entries opts Path d r es w))) = level_entries k es"
proof (induction opts Path d n w and opts Path d r es w arbitrary: k and k
       rule: fixlink_fixlink_entries.induct)
  case (1 opts Path CurDepth aq lk ls w)
  show ?case
  proof (cases k)
    case 0
    with "1.prems" have "depth_guard opts CurDepth" by (simp add: depth_guard_def)
    then show ?thesis by simp
  next
    case (Suc j)
    show ?thesis
    proof (cases "depth_guard opts CurDepth")
      case True
      then show ?thesis by simp
    next
      case False
      have j: "MaxDepth opts < CurDepth + 1 + int j" using "1.prems" Suc by simp
      show ?thesis
      proof (cases aq)
        case (Inl err)
        then show ?thesis using False by simp
      next
        case attrs: (Inr attrs)
        show ?thesis
        proof (cases "attrs AND FILE_ATTRIBUTE_REPARSE_POINT \<noteq> 0")
          case True
          then show ?thesis using False attrs Suc by (simp split: prod.splits)
        next
          case norep: False
          show ?thesis
          proof (cases "attrs AND FILE_ATTRIBUTE_DIRECTORY \<noteq> 0")
            case nodir: False
            then show ?thesis using False attrs norep by simp
          next
            case dir: True
            show ?thesis
            proof (cases ls)
              case (Inl err)
              then show ?thesis using False attrs norep dir Suc by (simp add: Let_def)
            next
              case es: (Inr es)
              have "level_entries j (fst (snd (fixlink_entries opts Path CurDepth 0 es
                        (called (FindFirstFile Path) w)))) = level_entries j es"
                by (rule "1.IH"[OF False attrs norep dir es "1.prems"(1) j])
              then show ?thesis using False attrs norep dir es Suc
                by (auto split: prod.splits)
            qed
          qed
        qed
      qed
    qed
  qed
next
  case (2 opts Path CurDepth result w)
  then show ?case by simp
next
  case (3 opts Path CurDepth result fileName fa child es w)
  then show ?case
    by (cases "ignored_name fileName") (auto split: prod.splits)
qed

lemma fixlink_entries_beyond_depth:
  "0 \<le> MaxDepth opts \<Longrightarrow> MaxDepth opts \<le> d \<Longrightarrow> fixlink_entries opts Path d 0 es w = (0, es, w)"
proof (induction es)
  case Nil
  show ?case by simp
next
  case (Cons e es)
  obtain fileName fa child where e: "e = (fileName, fa, child)" by (cases e) auto
  obtain aq lk ls where child: "child = Node aq lk ls" by (cases child) auto
  have "depth_guard opts (d + 1)" using Cons.prems by (simp add: depth_guard_def)
  then show ?case using Cons e child by simp
qed

text \<open>
  C5. With \<open>MaxDepth = n \<ge> 0\<close>: a visit at a depth above \<open>n\<close> returns 0 at once
  and changes nothing; after any visit at depth \<open>d\<close> the objects \<open>k\<close> levels below
  the visited one are what they were whenever \<open>d + k > n\<close>; a plain directory at depth
  \<open>n\<close> has its listing opened and nothing else happens; and with \<open>MaxDepth = -1\<close>
  the guard never fires.
\<close>

theorem depth_bound:
  "(0 \<le> MaxDepth opts \<and> MaxDepth opts < d \<longrightarrow> fixlink opts Path d n w = (0, n, w)) \<and>
   (0 \<le> MaxDepth opts \<and> MaxDepth opts < d + int k \<longrightarrow>
      level k (fst (snd (fixlink opts Path d n w))) = level k n) \<and>
   (0 \<le> MaxDepth opts \<and> MaxDepth opts = d \<and>
    attrs AND FILE_ATTRIBUTE_REPARSE_POINT = 0 \<and> attrs AND FILE_ATTRIBUTE_DIRECTORY \<noteq> 0 \<longrightarrow>
      fixlink opts Path d (Node (Inr attrs) lk (Inr es)) w =
        (0, Node (Inr attrs) lk (Inr es), called (FindFirstFile Path) w)) \<and>
   (MaxDepth opts = -1 \<longrightarrow> \<not> depth_guard opts d)"
proof (intro conjI impI)
  assume "0 \<le> MaxDepth opts \<and> MaxDepth opts < d"
  then have "depth_guard opts d" by (simp add: depth_guard_def)
  then show "fixlink opts Path d n w = (0, n, w)" by (cases n) simp
next
  assume "0 \<le> MaxDepth opts \<and> MaxDepth opts < d + int k"
  then show "level k (fst (snd (fixlink opts Path d n w))) = level k n"
    by (simp add: fixlink_level_aux(1))
next
  assume a: "0 \<le> MaxDepth opts \<and> MaxDepth opts = d \<and>
    attrs AND FILE_ATTRIBUTE_REPARSE_POINT = 0 \<and> attrs AND FILE_ATTRIBUTE_DIRECTORY \<noteq> 0"
  then have "\<not> depth_guard opts d" by (simp add: depth_guard_def)
  moreover have "fixlink_entries opts Path d 0 es (called (FindFirstFile Path) w)
      = (0, es, called (FindFirstFile Path) w)"
    using a by (intro fixlink_entries_beyond_depth) simp_all
  ultimately show "fixlink opts Path d (Node (Inr attrs) lk (Inr es)) w =
        (0, Node (Inr attrs) lk (Inr es), called (FindFirstFile Path) w)"
    using a by simp
next
  assume "MaxDepth opts = -1"
  then show "\<not> depth_guard opts d" by (simp add: depth_guard_def)
qed

theorem depth_bound_witness:
  "fixlink (opts_default\<lparr>MaxDepth := 0\<rparr>) ''C:/data/sub'' 1 (junction ''D:/old/base/sub'') world0
     = (0, junction ''D:/old/base/sub'', world0) \<and>
   level 1 (fst (snd (fixlink (opts_default\<lparr>MaxDepth := 0\<rparr>) ''C:/data'' 0
                        (data_tree ''D:/old/base/sub'') world0)))
     = level 1 (data_tree ''D:/old/base/sub'') \<and>
   fixlink (opts_default\<lparr>MaxDepth := 0\<rparr>) ''C:/data'' 0 (data_tree ''D:/old/base/sub'') world0
     = (0, data_tree ''D:/old/base/sub'', called (FindFirstFile ''C:/data'') world0) \<and>
   \<not> depth_guard opts_default 7"
  using depth_bound [of "opts_default\<lparr>MaxDepth := 0\<rparr>" 1 "''C:/data/sub''"
          "junction ''D:/old/base/sub''" world0 0 "0x10" "no_faults NoLink"
          "[(''.'', 0x10, regular_file), (''..'', 0x10, regular_file),
            (''notes.txt'', 0x80, regular_file), (''L'', 0x410, junction ''D:/old/base/sub'')]"]
        depth_bound [of "opts_default\<lparr>MaxDepth := 0\<rparr>" 0 "''C:/data''"
          "data_tree ''D:/old/base/sub''" world0 1 "0x10" "no_faults NoLink"
          "[(''.'', 0x10, regular_file), (''..'', 0x10, regular_file),
            (''notes.txt'', 0x80, regular_file), (''L'', 0x410, junction ''D:/old/base/sub'')]"]
        depth_bound [of opts_default 7]
  by (simp add: opts_default_def data_tree_def directory_def FILE_ATTRIBUTE_DIRECTORY_def
        FILE_ATTRIBUTE_REPARSE_POINT_def)

text \<open>
  C10. An object whose attributes carry neither the reparse-point bit nor the
  directory bit: the visit returns 0 and leaves the object, the counters, the output
  and the log of calls as they were; given as a root, the driver's loop goes on with
  the file system and the world unchanged.
\<close>

theorem plain_object_untouched:
  "attrs AND FILE_ATTRIBUTE_REPARSE_POINT = 0 \<and> attrs AND FILE_ATTRIBUTE_DIRECTORY = 0 \<longrightarrow>
     fixlink opts Path CurDepth (Node (Inr attrs) lk ls) w = (0, Node (Inr attrs) lk ls, w) \<and>
     (fs a = Node (Inr attrs) lk ls \<and> \<not> is_option a \<longrightarrow>
        visit_roots opts (a # rest) result fs w = visit_roots opts rest (Some 0) fs w)"
proof (intro impI conjI)
  assume a: "attrs AND FILE_ATTRIBUTE_REPARSE_POINT = 0 \<and> attrs AND FILE_ATTRIBUTE_DIRECTORY = 0"
  then show v: "fixlink opts Path CurDepth (Node (Inr attrs) lk ls) w = (0, Node (Inr attrs) lk ls, w)"
    for Path CurDepth
    by simp
  assume b: "fs a = Node (Inr attrs) lk ls \<and> \<not> is_option a"
  then have "fs(a := Node (Inr attrs) lk ls) = fs" by auto
  then show "visit_roots opts (a # rest) result fs w = visit_roots opts rest (Some 0) fs w"
    using b v[of a 0] by simp
qed

theorem plain_object_untouched_witness:
  "(0x80 :: DWORD) AND FILE_ATTRIBUTE_REPARSE_POINT = 0 \<and>
   (0x80 :: DWORD) AND FILE_ATTRIBUTE_DIRECTORY = 0 \<and>
   fixlink opts_default ''notes.txt'' 0 regular_file world0 = (0, regular_file, world0) \<and>
   visit_roots opts_default [''notes.txt'', ''C:/data''] None (fs_scenario(''notes.txt'' := regular_file)) world0
     = visit_roots opts_default [''C:/data''] (Some 0) (fs_scenario(''notes.txt'' := regular_file)) world0"
proof -
  have h: "(0x80 :: DWORD) AND FILE_ATTRIBUTE_REPARSE_POINT = 0 \<and>
           (0x80 :: DWORD) AND FILE_ATTRIBUTE_DIRECTORY = 0"
    by (simp add: FILE_ATTRIBUTE_DIRECTORY_def FILE_ATTRIBUTE_REPARSE_POINT_def)
  have r: "(fs_scenario(''notes.txt'' := regular_file)) ''notes.txt''
             = Node (Inr 0x80) (no_faults NoLink) (Inl 267) \<and> \<not> is_option ''notes.txt''"
    by (simp add: regular_file_def is_option_def)
  show ?thesis
    using h r plain_object_untouched [of "0x80" opts_default "''notes.txt''" 0 "no_faults NoLink"
          "Inl 267" world0 "fs_scenario(''notes.txt'' := regular_file)" "''notes.txt''"
          "[''C:/data'']" None]
    unfolding regular_file_def by blast
qed

subsection \<open>Classification\<close>

text \<open>
  C6. An object whose attributes carry both the directory bit and the reparse-point
  bit is handed to the rewriter: unless the depth guard ends the visit at once, the
  visit is the rewriter's step on the link followed by the final accounting; in every
  case the listing of the object is returned as it was given and no listing is opened
  during the visit.
\<close>

theorem reparse_point_before_directory:
  assumes "attrs AND FILE_ATTRIBUTE_REPARSE_POINT \<noteq> 0"
    and "attrs AND FILE_ATTRIBUTE_DIRECTORY \<noteq> 0"
  shows "(\<not> depth_guard opts CurDepth \<longrightarrow>
            fixlink opts Path CurDepth (Node (Inr attrs) lk ls) w =
              (case relink opts Path lk w of
                 (result, lk', w') \<Rightarrow> (result, Node (Inr attrs) lk' ls, finish Path result w'))) \<and>
         listing (fst (snd (fixlink opts Path CurDepth (Node (Inr attrs) lk ls) w))) = ls \<and>
         enumerated (calls (snd (snd (fixlink opts Path CurDepth (Node (Inr attrs) lk ls) w))))
           = enumerated (calls w)"
proof (cases "depth_guard opts CurDepth")
  case True
  then show ?thesis by simp
next
  case False
  have eq: "fixlink opts Path CurDepth (Node (Inr attrs) lk ls) w =
           (case relink opts Path lk w of
              (result, lk', w') \<Rightarrow> (result, Node (Inr attrs) lk' ls, finish Path result w'))"
    using assms False by simp
  obtain r lk' w' where rl: "relink opts Path lk w = (r, lk', w')"
    by (cases "relink opts Path lk w") auto
  have "enumerated (calls w') = enumerated (calls w)"
    using enumerated_relink[of opts Path lk w] rl by simp
  then show ?thesis unfolding eq rl using False by simp
qed

theorem reparse_point_before_directory_witness:
  "\<not> depth_guard opts_default 1 \<and>
   (0x410 :: DWORD) AND FILE_ATTRIBUTE_REPARSE_POINT \<noteq> 0 \<and>
   (0x410 :: DWORD) AND FILE_ATTRIBUTE_DIRECTORY \<noteq> 0 \<and>
   listing (fst (snd (fixlink opts_default ''C:/data/L'' 1
      (Node (Inr 0x410) (no_faults (JunctionTo ''D:/old''))
         (Inr [(''inner'', 0x410, junction ''D:/old/x'')])) world0)))
     = Inr [(''inner'', 0x410, junction ''D:/old/x'')] \<and>
   enumerated (calls (snd (snd (fixlink opts_default ''C:/data/L'' 1
      (Node (Inr 0x410) (no_faults (JunctionTo ''D:/old''))
         (Inr [(''inner'', 0x410, junction ''D:/old/x'')])) world0)))) = []"
proof -
  have g: "\<not> depth_guard opts_default 1"
    by (simp add: depth_guard_def opts_default_def)
  have r: "(0x410 :: DWORD) AND FILE_ATTRIBUTE_REPARSE_POINT \<noteq> 0"
    by (simp add: FILE_ATTRIBUTE_REPARSE_POINT_def)
  have d: "(0x410 :: DWORD) AND FILE_ATTRIBUTE_DIRECTORY \<noteq> 0"
    by (simp add: FILE_ATTRIBUTE_DIRECTORY_def)
  have e: "enumerated (calls world0) = []"
    by (simp add: world0_def)
  show ?thesis
    using g r d e reparse_point_before_directory [OF r d, of opts_default 1 "''C:/data/L''"
        "no_faults (JunctionTo ''D:/old'')" "Inr [(''inner'', 0x410, junction ''D:/old/x'')]" world0]
    by metis
qed

text \<open>
  C7 as stated fails: when both kind tests answer no and the last error is not 0 (here
  5, access denied), the visit returns that code, counts a failure and counts no skip.
\<close>

theorem unrecognized_with_error_is_failure:
  "\<not> IsJunction (link (other_reparse 5)) \<and> \<not> IsSymlink (link (other_reparse 5)) \<and>
   fst (fixlink opts_default ''C:/data/X'' 0 (other_reparse 5) world0) = 5 \<and>
   Stats (snd (snd (fixlink opts_default ''C:/data/X'' 0 (other_reparse 5) world0)))
     = \<lparr>NumModified = 0, NumSkipped = 0, NumFailed = 1\<rparr> \<and>
   out (snd (snd (fixlink opts_default ''C:/data/X'' 0 (other_reparse 5) world0)))
     = [AccessDenied ''C:/data/X'']"
  by (simp add: other_reparse_def no_faults_def IsJunction_def IsSymlink_def opts_default_def
        depth_guard_def FILE_ATTRIBUTE_REPARSE_POINT_def relink_def finish_def failed_def
        print_def PrintErrorMessage_def world0_def ERROR_ACCESS_DENIED_def
        ERROR_FILE_NOT_FOUND_def ERROR_PATH_NOT_FOUND_def)

text \<open>
  C7, amended. For a reparse point on which both kind tests answer no, in a visit that
  the depth guard lets through: when the last error is 0 the visit returns 0, the skip
  counter is one more than before, the line for an unrecognized reparse point is the
  one line added to the output, and the object, the other counters and the log of calls
  are as before; when the last error is a code other than 0 the visit returns that
  code, the failed counter is one more than before and the skip counter is as before.
\<close>

theorem unrecognized_reparse_point:
  assumes "\<not> depth_guard opts CurDepth"
    and "attrs AND FILE_ATTRIBUTE_REPARSE_POINT \<noteq> 0"
    and "\<not> IsJunction lk" and "\<not> IsSymlink lk"
  shows "(probeError lk = 0 \<longrightarrow>
            fixlink opts Path CurDepth (Node (Inr attrs) lk ls) w =
              (0, Node (Inr attrs) lk ls,
               w\<lparr>Stats := (Stats w)\<lparr>NumSkipped := NumSkipped (Stats w) + 1\<rparr>,
                 out := out w @ [UnrecognizedReparsePoint Path]\<rparr>)) \<and>
         (probeError lk \<noteq> 0 \<longrightarrow>
            fixlink opts Path CurDepth (Node (Inr attrs) lk ls) w =
              (probeError lk, Node (Inr attrs) lk ls,
               w\<lparr>Stats := (Stats w)\<lparr>NumFailed := NumFailed (Stats w) + 1\<rparr>,
                 out := out w @ PrintErrorMessage (probeError lk) Path\<rparr>))"
  using assms by (simp add: relink_def finish_def skipped_def failed_def print_def)

theorem unrecognized_reparse_point_witness:
  "\<not> depth_guard opts_default 0 \<and> (0x400 :: DWORD) AND FILE_ATTRIBUTE_REPARSE_POINT \<noteq> 0 \<and>
   \<not> IsJunction (no_faults OtherTag) \<and> \<not> IsSymlink (no_faults OtherTag) \<and>
   fixlink opts_default ''C:/data/X'' 0 (Node (Inr 0x400) (no_faults OtherTag) (Inl 5)) world0 =
     (0, Node (Inr 0x400) (no_faults OtherTag) (Inl 5),
      \<lparr>Stats = \<lparr>NumModified = 0, NumSkipped = 1, NumFailed = 0\<rparr>,
       out = [UnrecognizedReparsePoint ''C:/data/X''], calls = []\<rparr>)"
proof -
  have g: "\<not> depth_guard opts_default 0"
    by (simp add: depth_guard_def opts_default_def)
  have r: "(0x400 :: DWORD) AND FILE_ATTRIBUTE_REPARSE_POINT \<noteq> 0"
    by (simp add: FILE_ATTRIBUTE_REPARSE_POINT_def)
  have j: "\<not> IsJunction (no_faults OtherTag)" by (simp add: IsJunction_def no_faults_def)
  have s: "\<not> IsSymlink (no_faults OtherTag)" by (simp add: IsSymlink_def no_faults_def)
  have p: "probeError (no_faults OtherTag) = 0" by (simp add: no_faults_def)
  have w: "world0\<lparr>Stats := (Stats world0)\<lparr>NumSkipped := NumSkipped (Stats world0) + 1\<rparr>,
                 out := out world0 @ [UnrecognizedReparsePoint ''C:/data/X'']\<rparr> =
      \<lparr>Stats = \<lparr>NumModified = 0, NumSkipped = 1, NumFailed = 0\<rparr>,
       out = [UnrecognizedReparsePoint ''C:/data/X''], calls = []\<rparr>"
    by (simp add: world0_def)
  show ?thesis
    using g r j s p w unrecognized_reparse_point [OF g r j s, of "''C:/data/X''" "Inl 5" world0]
    by metis
qed

subsection \<open>Failures and their propagation\<close>



lemma PrintErrorMessage_denied [simp]:
  "PrintErrorMessage ERROR_ACCESS_DENIED Path = [AccessDenied Path]"
  by (simp add: PrintErrorMessage_def ERROR_ACCESS_DENIED_def ERROR_FILE_NOT_FOUND_def
        ERROR_PATH_NOT_FOUND_def)







subsection \<open>The substitution\<close>








subsection \<open>Runs of the driver\<close>

lemma NumModified_tmain:
  "NumModified (Stats (snd (snd (tmain opts0 argv fs)))) = 0"
proof (cases "parse_args 1 (drop 1 argv) opts0 4")
  case (ExitNow ls)
  then show ?thesis by (simp add: tmain_def world0_def)
next
  case (Parsed opts s)
  obtain result fs' w where v: "visit_roots opts (drop 1 argv) None fs world0 = (result, fs', w)"
    by (cases "visit_roots opts (drop 1 argv) None fs world0") auto
  have "NumModified (Stats w) = 0"
    using NumModified_visit_roots[of opts "drop 1 argv" None fs world0] v
    by (simp add: world0_def)
  then show ?thesis
    using Parsed v by (simp add: tmain_def Let_def world0_def split: option.splits)
qed

lemma visit_roots_None:
  "fst (visit_roots opts ts result fs w) = None \<Longrightarrow> result = None"
proof (induction ts arbitrary: result fs w)
  case Nil
  then show ?case by simp
next
  case (Cons a ts)
  show ?case
  proof (cases "is_option a")
    case True
    then show ?thesis using Cons by simp
  next
    case False
    obtain r n' w' where v: "fixlink opts a 0 (fs a) w = (r, n', w')"
      by (cases "fixlink opts a 0 (fs a) w") auto
    show ?thesis
    proof (cases "r = 0")
      case True
      then have "fst (visit_roots opts ts (Some r) (fs(a := n')) w') = None"
        using Cons.prems False v by simp
      then have "Some r = None" by (rule Cons.IH)
      then show ?thesis by simp
    next
      case nz: False
      then show ?thesis using Cons.prems False v by simp
    qed
  qed
qed

text \<open>
  C1, on the code. No statement of the program changes \<^verbatim>\<open>Stats.NumModified\<close>, so
  the summary of every run prints \<open>Modified: 0\<close>. In the scenario of section 8, with
  the two base paths naming existing directories, the junction is rewritten to
  \<^verbatim>\<open>D:/new/base/sub\<close> and the run exits 0, yet the summary is
  \<open>Modified: 0, Skipped: 0, Failed: 0\<close>, where the claim has \<open>Modified: 1\<close>.
\<close>

theorem modified_counter_stays_zero:
  "NumModified (Stats (snd (snd (tmain opts0 argv fs)))) = 0 \<and>
   fst (tmain opts_default [''fixlink'', ''D:/old/base'', ''D:/new/base'', ''C:/data'']
          fs_bases_exist) = Exit 0 \<and>
   fst (snd (tmain opts_default [''fixlink'', ''D:/old/base'', ''D:/new/base'', ''C:/data'']
               fs_bases_exist)) ''C:/data'' = data_tree ''D:/new/base/sub'' \<and>
   out (snd (snd (tmain opts_default [''fixlink'', ''D:/old/base'', ''D:/new/base'', ''C:/data'']
               fs_bases_exist))) = [ModifiedLine 0, SkippedLine 0, FailedLine 0]"
proof -
  have "tmain opts_default [''fixlink'', ''D:/old/base'', ''D:/new/base'', ''C:/data'']
          fs_bases_exist =
        (Exit 0,
         fs_bases_exist(''D:/old/base'' := directory [], ''D:/new/base'' := directory [],
                        ''C:/data'' := data_tree ''D:/new/base/sub''),
         \<lparr>Stats = \<lparr>NumModified = 0, NumSkipped = 0, NumFailed = 0\<rparr>,
          out = [ModifiedLine 0, SkippedLine 0, FailedLine 0],
          calls = [FindFirstFile ''D:/old/base'', FindFirstFile ''D:/new/base'',
                   FindFirstFile ''C:/data'', GetTarget Junction (filePath ''C:/data'' ''L''),
                   Substitute ''D:/old/base/sub'' ''D:/old/base'' ''D:/new/base'',
                   DeleteLink Junction (filePath ''C:/data'' ''L''),
                   CreateLink Junction (filePath ''C:/data'' ''L'') ''D:/new/base/sub'']\<rparr>)"
    by (simp add: run_defs)
  then show ?thesis using NumModified_tmain[of opts0 argv fs] by simp
qed

text \<open>
  C2, on the code. The second loop starts at \<^verbatim>\<open>argv[1]\<close> again; \<^verbatim>\<open>StartArgIdx\<close>
  is assigned and never read. So the find token is the first root visited. Where it
  names nothing, its visit fails with code 2, the loop ends, and the root
  \<^verbatim>\<open>C:/data\<close> is never visited; where both base paths name directories, their
  listings are opened before that of the root.
\<close>

theorem find_token_visited_as_root:
  "tmain opts_default [''fixlink'', ''D:/old/base'', ''D:/new/base'', ''C:/data''] fs_scenario =
     (Exit 2, fs_scenario(''D:/old/base'' := missing),
      \<lparr>Stats = \<lparr>NumModified = 0, NumSkipped = 0, NumFailed = 1\<rparr>,
       out = [FileNotFound ''D:/old/base'', ModifiedLine 0, SkippedLine 0, FailedLine 1],
       calls = []\<rparr>) \<and>
   enumerated (calls (snd (snd (tmain opts_default
       [''fixlink'', ''D:/old/base'', ''D:/new/base'', ''C:/data''] fs_bases_exist)))) =
     [''D:/old/base'', ''D:/new/base'', ''C:/data'']"
  by (simp add: run_defs)

text \<open>
  C8 as stated fails: a root whose visit fails with access denied makes the process
  exit with code 5, not 1; and a usage request exits 0 although the argument count is
  below four.
\<close>

theorem exit_code_is_the_error_code:
  "fst (tmain opts_default [''fixlink'', ''D:/old/base'', ''D:/new/base'', ''C:/locked'']
          fs_bases_exist) = Exit 5 \<and>
   fst (tmain opts_default [''fixlink'', ''/?''] fs_bases_exist) = Exit 0"
  by (simp add: run_defs)

text \<open>
  C8, amended. A version or usage request exits 0. Otherwise fewer than four arguments
  exit 1. Otherwise, once a root has been visited: if the last visit returned a code
  other than 0 (the loop ended there), the process exits with that code; if it
  returned 0, the process exits 1 when the failed counter is positive and 0 when it is
  0. A non-zero root result always comes with a positive failed counter, so the exit
  code is 0 exactly when the failed counter is 0.
\<close>

theorem exit_code_contract:
  "(parse_args 1 (drop 1 argv) opts0 4 = ExitNow ls \<longrightarrow> fst (tmain opts0 argv fs) = Exit 0) \<and>
   (parse_args 1 (drop 1 argv) opts0 4 = Parsed opts s \<and> length argv < 4 \<longrightarrow>
      fst (tmain opts0 argv fs) = Exit 1) \<and>
   (parse_args 1 (drop 1 argv) opts0 4 = Parsed opts s \<and> 4 \<le> length argv \<and>
    fst (visit_roots opts (drop 1 argv) None fs world0) = Some r \<longrightarrow>
      fst (tmain opts0 argv fs) =
        Exit (if r \<noteq> 0 then r
              else if 0 < NumFailed (Stats (snd (snd (visit_roots opts (drop 1 argv) None fs world0))))
              then 1 else 0) \<and>
      (fst (tmain opts0 argv fs) = Exit 0 \<longleftrightarrow>
         NumFailed (Stats (snd (snd (visit_roots opts (drop 1 argv) None fs world0)))) = 0))"
proof (intro conjI impI)
  assume "parse_args 1 (drop 1 argv) opts0 4 = ExitNow ls"
  then show "fst (tmain opts0 argv fs) = Exit 0" by (simp add: tmain_def)
next
  assume "parse_args 1 (drop 1 argv) opts0 4 = Parsed opts s \<and> length argv < 4"
  then show "fst (tmain opts0 argv fs) = Exit 1" by (simp add: tmain_def requiredArgs_def)
next
  assume a: "parse_args 1 (drop 1 argv) opts0 4 = Parsed opts s \<and> 4 \<le> length argv \<and>
    fst (visit_roots opts (drop 1 argv) None fs world0) = Some r"
  obtain fs' w where v: "visit_roots opts (drop 1 argv) None fs world0 = (Some r, fs', w)"
    using a by (cases "visit_roots opts (drop 1 argv) None fs world0") auto
  have counted: "r = 0 \<or> 0 < NumFailed (Stats w)"
    using visit_roots_nonzero_counted[OF v] by (cases "r = 0") simp_all
  have e: "fst (tmain opts0 argv fs) = Exit (if r = 0 \<and> 0 < NumFailed (Stats w) then 1 else r)"
    using a v by (simp add: tmain_def requiredArgs_def Let_def)
  show "fst (tmain opts0 argv fs) =
        Exit (if r \<noteq> 0 then r
              else if 0 < NumFailed (Stats (snd (snd (visit_roots opts (drop 1 argv) None fs world0))))
              then 1 else 0)"
    unfolding e v by simp
  show "fst (tmain opts0 argv fs) = Exit 0 \<longleftrightarrow>
         NumFailed (Stats (snd (snd (visit_roots opts (drop 1 argv) None fs world0)))) = 0"
    unfolding e v using counted by (cases "r = 0") auto
qed

theorem exit_code_contract_witness:
  "fst (tmain opts_default [''fixlink'', ''/VER''] fs_scenario) = Exit 0 \<and>
   fst (tmain opts_default [''fixlink'', ''D:/old/base'', ''D:/new/base''] fs_scenario) = Exit 1 \<and>
   fst (tmain opts_default [''fixlink'', ''D:/old/base'', ''D:/new/base'', ''C:/locked'']
          fs_bases_exist) = Exit 5 \<and>
   fst (tmain opts_default [''fixlink'', ''D:/old/base'', ''D:/new/base'', ''C:/data'']
          fs_bases_exist) = Exit 0"
proof -
  have p1: "parse_args 1 (drop 1 [''fixlink'', ''/VER'']) opts_default 4 = ExitNow [VersionText]"
    by (simp add: asks_version_def)
  have p2: "parse_args 1 (drop 1 [''fixlink'', ''D:/old/base'', ''D:/new/base'']) opts_default 4
      = Parsed (opts_default\<lparr>OldTargetBase := ''D:/old/base'', NewTargetBase := ''D:/new/base''\<rparr>) 3 \<and>
      length [''fixlink'', ''D:/old/base'', ''D:/new/base''] < 4"
    by (simp add: asks_version_def asks_usage_def sets_level_def sets_verbose_def)
  have p3: "parse_args 1 (drop 1 [''fixlink'', ''D:/old/base'', ''D:/new/base'', ''C:/locked''])
        opts_default 4
      = Parsed (opts_default\<lparr>OldTargetBase := ''D:/old/base'', NewTargetBase := ''D:/new/base''\<rparr>) 3 \<and>
      4 \<le> length [''fixlink'', ''D:/old/base'', ''D:/new/base'', ''C:/locked''] \<and>
      fst (visit_roots (opts_default\<lparr>OldTargetBase := ''D:/old/base'', NewTargetBase := ''D:/new/base''\<rparr>)
             (drop 1 [''fixlink'', ''D:/old/base'', ''D:/new/base'', ''C:/locked''])
             None fs_bases_exist world0) = Some 5"
    by (simp add: run_defs)
  have p4: "parse_args 1 (drop 1 [''fixlink'', ''D:/old/base'', ''D:/new/base'', ''C:/data''])
        opts_default 4
      = Parsed (opts_default\<lparr>OldTargetBase := ''D:/old/base'', NewTargetBase := ''D:/new/base''\<rparr>) 3 \<and>
      4 \<le> length [''fixlink'', ''D:/old/base'', ''D:/new/base'', ''C:/data''] \<and>
      fst (visit_roots (opts_default\<lparr>OldTargetBase := ''D:/old/base'', NewTargetBase := ''D:/new/base''\<rparr>)
             (drop 1 [''fixlink'', ''D:/old/base'', ''D:/new/base'', ''C:/data''])
             None fs_bases_exist world0) = Some 0 \<and>
      NumFailed (Stats (snd (snd (visit_roots
             (opts_default\<lparr>OldTargetBase := ''D:/old/base'', NewTargetBase := ''D:/new/base''\<rparr>)
             (drop 1 [''fixlink'', ''D:/old/base'', ''D:/new/base'', ''C:/data''])
             None fs_bases_exist world0)))) = 0"
    by (simp add: run_defs)
  have A: "fst (tmain opts_default [''fixlink'', ''/VER''] fs_scenario) = Exit 0"
    using exit_code_contract [of "[''fixlink'', ''/VER'']" opts_default "[VersionText]" fs_scenario]
      p1 by blast
  have B: "fst (tmain opts_default [''fixlink'', ''D:/old/base'', ''D:/new/base''] fs_scenario) = Exit 1"
    using exit_code_contract [of "[''fixlink'', ''D:/old/base'', ''D:/new/base'']" opts_default _
        fs_scenario] p2 by blast
  have C: "fst (tmain opts_default [''fixlink'', ''D:/old/base'', ''D:/new/base'', ''C:/locked'']
          fs_bases_exist) = Exit (if (5 :: DWORD) \<noteq> 0 then 5 else
             if 0 < NumFailed (Stats (snd (snd (visit_roots
             (opts_default\<lparr>OldTargetBase := ''D:/old/base'', NewTargetBase := ''D:/new/base''\<rparr>)
             (drop 1 [''fixlink'', ''D:/old/base'', ''D:/new/base'', ''C:/locked''])
             None fs_bases_exist world0)))) then 1 else 0)"
    using exit_code_contract [of "[''fixlink'', ''D:/old/base'', ''D:/new/base'', ''C:/locked'']"
        opts_default _ fs_bases_exist _ _ 5] p3 by blast
  have D: "fst (tmain opts_default [''fixlink'', ''D:/old/base'', ''D:/new/base'', ''C:/data'']
          fs_bases_exist) = Exit 0"
    using exit_code_contract [of "[''fixlink'', ''D:/old/base'', ''D:/new/base'', ''C:/data'']"
        opts_default _ fs_bases_exist _ _ 0] p4 by blast
  show ?thesis using A B C D by simp
qed

lemma bases_used_append [simp]: "bases_used (xs @ ys) = bases_used xs @ bases_used ys"
  by (induction xs rule: bases_used.induct) simp_all

lemma bases_rewrite_link:
  "set (bases_used (calls (snd (snd (rewrite_link k opts Path lk w))))) \<subseteq>
     insert (OldTargetBase opts, NewTargetBase opts) (set (bases_used (calls w)))"
  by (auto simp: rewrite_link_def GetLinkTarget_def DeleteLinkAt_def CreateLinkAt_def Let_def)

lemma bases_relink:
  "relink opts Path lk w = (r, lk', w') \<Longrightarrow>
     set (bases_used (calls w')) \<subseteq>
       insert (OldTargetBase opts, NewTargetBase opts) (set (bases_used (calls w)))"
  using bases_rewrite_link [of Junction opts Path lk w] bases_rewrite_link [of Symlink opts Path lk w]
  by (auto simp: relink_def Let_def split: if_splits)

lemma bases_fixlink:
  "set (bases_used (calls w)) \<subseteq> S \<Longrightarrow> (OldTargetBase opts, NewTargetBase opts) \<in> S \<Longrightarrow>
     set (bases_used (calls (snd (snd (fixlink opts Path d n w))))) \<subseteq> S"
  "set (bases_used (calls w)) \<subseteq> S \<Longrightarrow> (OldTargetBase opts, NewTargetBase opts) \<in> S \<Longrightarrow>
     set (bases_used (calls (snd (snd (fixlink_entries opts Path d r es w))))) \<subseteq> S"
proof (induction opts Path d n w and opts Path d r es w rule: fixlink_fixlink_entries.induct)
  case (1 opts Path CurDepth aq lk ls w)
  show ?case
  proof (cases "depth_guard opts CurDepth")
    case True
    then show ?thesis using "1.prems" by simp
  next
    case False
    show ?thesis
    proof (cases aq)
      case (Inl err)
      then show ?thesis using False "1.prems" by simp
    next
      case attrs: (Inr attrs)
      show ?thesis
      proof (cases "attrs AND FILE_ATTRIBUTE_REPARSE_POINT \<noteq> 0")
        case True
        obtain r lk' w' where rl: "relink opts Path lk w = (r, lk', w')"
          by (cases "relink opts Path lk w") auto
        have "set (bases_used (calls w')) \<subseteq> S"
          using bases_relink [OF rl] "1.prems" by auto
        then show ?thesis using False attrs True rl by simp
      next
        case norep: False
        show ?thesis
        proof (cases "attrs AND FILE_ATTRIBUTE_DIRECTORY \<noteq> 0")
          case False
          then show ?thesis using attrs norep "1.prems" by simp
        next
          case dir: True
          show ?thesis
          proof (cases ls)
            case (Inl err)
            then show ?thesis using False attrs norep dir "1.prems" by (simp add: Let_def)
          next
            case es: (Inr es)
            have "set (bases_used (calls (called (FindFirstFile Path) w))) \<subseteq> S"
              using "1.prems" by simp
            then have "set (bases_used (calls (snd (snd (fixlink_entries opts Path CurDepth 0 es
                      (called (FindFirstFile Path) w)))))) \<subseteq> S"
              using "1.prems"(2) by (rule "1.IH"[OF False attrs norep dir es])
            then show ?thesis using False attrs norep dir es by (auto split: prod.splits)
          qed
        qed
      qed
    qed
  qed
next
  case (2 opts Path CurDepth result w)
  then show ?case by simp
next
  case (3 opts Path CurDepth result fileName fa child es w)
  show ?case
  proof (cases "ignored_name fileName")
    case True
    then show ?thesis using "3.IH"(1) "3.prems" by (auto split: prod.splits)
  next
    case ign: False
    show ?thesis
    proof (cases "fa AND FILE_ATTRIBUTE_DIRECTORY \<noteq> 0 \<or> fa AND FILE_ATTRIBUTE_REPARSE_POINT \<noteq> 0")
      case False
      then show ?thesis using ign "3.IH"(4) "3.prems" by (auto split: prod.splits)
    next
      case True
      obtain r1 c1 w1 where v: "fixlink opts (filePath Path fileName) (CurDepth + 1) child w = (r1, c1, w1)"
        by (cases "fixlink opts (filePath Path fileName) (CurDepth + 1) child w") auto
      have s1: "set (bases_used (calls w1)) \<subseteq> S"
        using "3.IH"(2)[OF ign True "3.prems"] v by simp
      have "set (bases_used (calls (snd (snd (fixlink_entries opts Path CurDepth r1 es w1))))) \<subseteq> S"
        using "3.IH"(3)[OF ign True v[symmetric] refl s1 "3.prems"(2)] .
      then show ?thesis using ign True v by (auto split: prod.splits)
    qed
  qed
qed


lemma bases_visit_roots:
  "set (bases_used (calls w)) \<subseteq> S \<Longrightarrow> (OldTargetBase opts, NewTargetBase opts) \<in> S \<Longrightarrow>
     set (bases_used (calls (snd (snd (visit_roots opts ts res fs w))))) \<subseteq> S"
proof (induction ts arbitrary: res fs w)
  case Nil
  then show ?case by simp
next
  case (Cons a ts)
  show ?case
  proof (cases "is_option a")
    case True
    then show ?thesis using Cons by simp
  next
    case False
    obtain r n' w' where v: "fixlink opts a 0 (fs a) w = (r, n', w')"
      by (cases "fixlink opts a 0 (fs a) w") auto
    have s1: "set (bases_used (calls w')) \<subseteq> S"
      using bases_fixlink(1)[OF Cons.prems, of a 0 "fs a"] v by simp
    show ?thesis
    proof (cases "r = 0")
      case True
      have "set (bases_used (calls (snd (snd (visit_roots opts ts (Some r) (fs(a := n')) w'))))) \<subseteq> S"
        using s1 Cons.prems(2) by (rule Cons.IH)
      then show ?thesis using False v True by simp
    next
      case nz: False
      then show ?thesis using False v s1 by simp
    qed
  qed
qed

lemma parse_args_bases:
  assumes "\<forall>t\<in>set pre. \<not> asks_version t \<and> \<not> asks_usage t \<and> (sets_level t \<or> sets_verbose t)"
    and "\<not> asks_version a" and "\<not> asks_usage a" and "\<not> sets_level a" and "\<not> sets_verbose a"
  shows "\<exists>opts'. parse_args i (pre @ a # b # rest) opts s = Parsed opts' (i + length pre + 2) \<and>
           OldTargetBase opts' = a \<and> NewTargetBase opts' = b"
  using assms(1)
proof (induction pre arbitrary: i opts)
  case Nil
  show ?case using assms(2-5) by simp
next
  case (Cons t pre)
  have t: "\<not> asks_version t \<and> \<not> asks_usage t \<and> (sets_level t \<or> sets_verbose t)"
    using Cons.prems by simp
  have rest: "\<forall>t\<in>set pre. \<not> asks_version t \<and> \<not> asks_usage t \<and> (sets_level t \<or> sets_verbose t)"
    using Cons.prems by simp
  show ?case
  proof (cases "sets_level t")
    case True
    show ?thesis
      using t True Cons.IH[OF rest, of "i + 1" "opts\<lparr>MaxDepth := ttoi (drop 5 t)\<rparr>"] by simp
  next
    case False
    then show ?thesis
      using t Cons.IH[OF rest, of "i + 1" "opts\<lparr>bVerbose := True\<rparr>"] by simp
  qed
qed

text \<open>
  C9 as stated fails: nothing checks the two bases. With an empty second token the new
  base is empty, and the junction under the first token is read, its new target
  computed with the empty new base, and the junction deleted and created again.
\<close>

theorem rewrite_with_empty_base:
  "parse_args 1 [''C:/data'', [], ''x''] opts_default 4 =
     Parsed (opts_default\<lparr>OldTargetBase := ''C:/data'', NewTargetBase := []\<rparr>) 3 \<and>
   calls (snd (snd (tmain opts_default [''fixlink'', ''C:/data'', [], ''x''] fs_scenario))) =
     [FindFirstFile ''C:/data'', GetTarget Junction (filePath ''C:/data'' ''L''),
      Substitute ''D:/old/base/sub'' ''C:/data'' [],
      DeleteLink Junction (filePath ''C:/data'' ''L''),
      CreateLink Junction (filePath ''C:/data'' ''L'') ''D:/old/base/sub''] \<and>
   bases_used (calls (snd (snd (tmain opts_default [''fixlink'', ''C:/data'', [], ''x'']
                                   fs_scenario)))) = [(''C:/data'', [])]"
  by (simp add: run_defs)

text \<open>
  C9, amended. When the argument loop, after tokens that only set the level or the
  verbosity, reaches a token \<open>a\<close> that matches no option pattern and has a token
  \<open>b\<close> after it, the loop ends with \<open>OldTargetBase = a\<close> and \<open>NewTargetBase = b\<close>,
  and every substitution of the run is made with the old base \<open>a\<close> and the new base
  \<open>b\<close>; so the bases of a rewrite are non-empty exactly when \<open>a\<close> and \<open>b\<close> are.
\<close>

theorem bases_are_the_tokens:
  assumes "\<forall>t\<in>set pre. \<not> asks_version t \<and> \<not> asks_usage t \<and> (sets_level t \<or> sets_verbose t)"
    and "\<not> asks_version a" and "\<not> asks_usage a" and "\<not> sets_level a" and "\<not> sets_verbose a"
  shows "(\<exists>opts'. parse_args 1 (pre @ a # b # rest) opts0 4 = Parsed opts' (length pre + 3) \<and>
            OldTargetBase opts' = a \<and> NewTargetBase opts' = b) \<and>
         set (bases_used (calls (snd (snd (tmain opts0 (prog # pre @ a # b # rest) fs)))))
           \<subseteq> {(a, b)}"
proof -
  obtain opts' where p: "parse_args 1 (pre @ a # b # rest) opts0 4 = Parsed opts' (1 + length pre + 2)"
    and o: "OldTargetBase opts' = a" "NewTargetBase opts' = b"
    using parse_args_bases [OF assms, of 1 b rest opts0 4] by blast
  have w0: "set (bases_used (calls world0)) \<subseteq> {(a, b)}" by (simp add: world0_def)
  have v: "set (bases_used (calls (snd (snd (visit_roots opts' (pre @ a # b # rest) None fs world0)))))
             \<subseteq> {(a, b)}"
    using w0 by (rule bases_visit_roots) (simp add: o)
  obtain res fs' w where vr: "visit_roots opts' (pre @ a # b # rest) None fs world0 = (res, fs', w)"
    by (cases "visit_roots opts' (pre @ a # b # rest) None fs world0") auto
  have "set (bases_used (calls (snd (snd (tmain opts0 (prog # pre @ a # b # rest) fs)))))
           \<subseteq> {(a, b)}"
    using p v vr w0 by (simp add: tmain_def Let_def split: option.splits)
  then show ?thesis using p o by simp
qed

theorem bases_are_the_tokens_witness:
  "parse_args 1 ([''/LEV:2''] @ ''C:/data'' # ''E:/new'' # [''x'']) opts_default 4 =
     Parsed \<lparr>OldTargetBase = ''C:/data'', NewTargetBase = ''E:/new'', MaxDepth = 2,
               bVerbose = False\<rparr> 4 \<and>
   bases_used (calls (snd (snd (tmain opts_default
        (''fixlink'' # [''/LEV:2''] @ ''C:/data'' # ''E:/new'' # [''x'']) fs_scenario)))) =
     [(''C:/data'', ''E:/new'')] \<and>
   set (bases_used (calls (snd (snd (tmain opts_default
        (''fixlink'' # [''/LEV:2''] @ ''C:/data'' # ''E:/new'' # [''x'']) fs_scenario)))))
     \<subseteq> {(''C:/data'', ''E:/new'')}"
proof -
  have pre: "\<forall>t\<in>set [''/LEV:2'']. \<not> asks_version t \<and> \<not> asks_usage t \<and>
               (sets_level t \<or> sets_verbose t)"
    by (simp add: asks_version_def asks_usage_def sets_level_def sets_verbose_def)
  have a: "\<not> asks_version ''C:/data''" "\<not> asks_usage ''C:/data''"
          "\<not> sets_level ''C:/data''" "\<not> sets_verbose ''C:/data''"
    by (simp_all add: asks_version_def asks_usage_def sets_level_def sets_verbose_def)
  note t = bases_are_the_tokens [OF pre a, of "''E:/new''" "[''x'']" opts_default "''fixlink''"
             fs_scenario]
  have p: "parse_args 1 ([''/LEV:2''] @ ''C:/data'' # ''E:/new'' # [''x'']) opts_default 4 =
     Parsed \<lparr>OldTargetBase = ''C:/data'', NewTargetBase = ''E:/new'', MaxDepth = 2,
               bVerbose = False\<rparr> 4"
    by (simp add: asks_version_def asks_usage_def sets_level_def sets_verbose_def opts_default_def
          ttoi_def isspace_def isdigit_def)
  have e: "bases_used (calls (snd (snd (tmain opts_default
        (''fixlink'' # [''/LEV:2''] @ ''C:/data'' # ''E:/new'' # [''x'']) fs_scenario)))) =
     [(''C:/data'', ''E:/new'')]"
    by (simp add: run_defs ttoi_def isspace_def isdigit_def)
  show ?thesis using p e t [THEN conjunct2] by (intro conjI)
qed

end
